theory Spec2Isabelle
  imports Complex_Main "HOL-Library.Word" "HOL-Library.Multiset"
begin

section \<open>Values of the JavaScript runtime\<close>

text \<open>
  A JavaScript string is a sequence of UTF-16 code units; \<open>trim\<close> and \<open>slice\<close> count
  code units. \<open>js\<close> writes an ASCII literal as such a sequence.
\<close>

type_synonym jsstring = "16 word list"

definition js :: "string \<Rightarrow> jsstring" where
  "js s = map of_char s"

text \<open>
  The code units that \<open>String.prototype.trim\<close> strips: ECMAScript WhiteSpace (TAB, VT, FF,
  SP, NBSP, ZWNBSP, category Zs) and LineTerminator (LF, CR, LS, PS).
\<close>

definition is_ws :: "16 word \<Rightarrow> bool" where
  "is_ws c \<longleftrightarrow>
     c \<in> set [9, 10, 11, 12, 13, 32, 160, 5760, 8232, 8233, 8239, 8287, 12288, 65279]
     \<or> (8192 \<le> c \<and> c \<le> 8202)"

definition trim :: "jsstring \<Rightarrow> jsstring" where
  "trim s = rev (dropWhile is_ws (rev (dropWhile is_ws s)))"

text \<open>
  A JavaScript number is a double. Finite doubles are modelled by the real they denote and
  arithmetic on them is exact; the three special values are kept apart.
\<close>

datatype jsnum = NaN | PosInf | NegInf | Fin real

text \<open>
  A field of the request body as \<open>express.json()\<close> delivers it: absent (\<open>undefined\<close>
  after destructuring), or a JSON primitive. A number literal too large for a double
  parses to an infinity.
\<close>

datatype jsval = Undefined | Null | Bool bool | Num jsnum | Str jsstring

text \<open>\<open>!v\<close>\<close>

fun falsy :: "jsval \<Rightarrow> bool" where
  "falsy Undefined = True"
| "falsy Null = True"
| "falsy (Bool b) = (\<not> b)"
| "falsy (Num n) = (n = NaN \<or> n = Fin 0)"
| "falsy (Str s) = (s = [])"

text \<open>
  \<open>Number(v)\<close>. The conversion of a string (the runtime's StringToNumber) is the
  parameter \<open>s2n\<close>.
\<close>

fun ToNumber :: "(jsstring \<Rightarrow> jsnum) \<Rightarrow> jsval \<Rightarrow> jsnum" where
  "ToNumber s2n Undefined = NaN"
| "ToNumber s2n Null = Fin 0"
| "ToNumber s2n (Bool b) = Fin (if b then 1 else 0)"
| "ToNumber s2n (Num n) = n"
| "ToNumber s2n (Str s) = s2n s"

text \<open>\<open>x || 0\<close> on a number: \<open>NaN\<close> and zero are falsy.\<close>

fun or0 :: "jsnum \<Rightarrow> jsnum" where
  "or0 NaN = Fin 0"
| "or0 (Fin r) = (if r = 0 then Fin 0 else Fin r)"
| "or0 PosInf = PosInf"
| "or0 NegInf = NegInf"

text \<open>\<open>Number.isFinite\<close>, \<open>Number.isInteger\<close>, \<open>x < c\<close> and \<open>x > c\<close> for a finite \<open>c\<close>.\<close>

fun isFinite :: "jsnum \<Rightarrow> bool" where
  "isFinite (Fin r) = True"
| "isFinite _ = False"

fun isInteger :: "jsnum \<Rightarrow> bool" where
  "isInteger (Fin r) = (of_int \<lfloor>r\<rfloor> = r)"
| "isInteger _ = False"

fun js_lt :: "jsnum \<Rightarrow> real \<Rightarrow> bool" where
  "js_lt (Fin r) c = (r < c)"
| "js_lt NegInf c = True"
| "js_lt _ c = False"

fun js_gt :: "jsnum \<Rightarrow> real \<Rightarrow> bool" where
  "js_gt (Fin r) c = (r > c)"
| "js_gt PosInf c = True"
| "js_gt _ c = False"

text \<open>
  \<open>Math.floor\<close>, read as an integer. The handler applies it to finite numbers only; it
  also reads the integer that \<open>safeRebirth\<close> is once it has passed \<open>Number.isInteger\<close>.
\<close>

fun Math_floor :: "jsnum \<Rightarrow> int" where
  "Math_floor (Fin r) = \<lfloor>r\<rfloor>"
| "Math_floor _ = 0"

text \<open>\<open>Array.prototype.findIndex\<close>; \<open>None\<close> stands for the result -1.\<close>

fun findIndex :: "('a \<Rightarrow> bool) \<Rightarrow> 'a list \<Rightarrow> nat option" where
  "findIndex P [] = None"
| "findIndex P (x # xs) =
     (if P x then Some 0 else map_option Suc (findIndex P xs))"

text \<open>
  \<open>Array.prototype.sort\<close> with a comparator is a stable sort: \<open>a\<close> comes before \<open>b\<close>
  when \<open>cmp a b < 0\<close>, and elements that compare equal keep their order. A stable
  insertion sort computes that result.
\<close>

fun insert_by :: "('a \<Rightarrow> 'a \<Rightarrow> int) \<Rightarrow> 'a \<Rightarrow> 'a list \<Rightarrow> 'a list" where
  "insert_by cmp x [] = [x]"
| "insert_by cmp x (y # ys) =
     (if cmp x y \<le> 0 then x # y # ys else y # insert_by cmp x ys)"

definition js_sort :: "('a \<Rightarrow> 'a \<Rightarrow> int) \<Rightarrow> 'a list \<Rightarrow> 'a list" where
  "js_sort cmp xs = foldr (insert_by cmp) xs []"


section \<open>The leaderboard\<close>

text \<open>
  An entry as the submission handler builds it (server.js, lines 114-119): \<open>money\<close> is
  \<open>Math.floor\<close> of a finite number, \<open>rebirth\<close> passed \<open>Number.isInteger\<close>,
  \<open>updatedAt\<close> is \<open>Date.now()\<close> in milliseconds.
\<close>

record entry =
  name :: jsstring
  money :: int
  rebirth :: int
  updatedAt :: int

text \<open>
  The early returns of the submission handler, under the names the specification gives
  them: line 95 (no name), line 100 (score not a finite number or negative), line 105
  (score above 5000000000), line 110 (tier not an integer or negative), line 131 (less than
  5 seconds since the previous entry), line 140 (abnormal increase).
\<close>

datatype rejection =
  InvalidName | InvalidScore | ImplausibleScore | InvalidTier | RateLimited | ImplausibleIncrease

text \<open>The HTTP status of each early return of the handler.\<close>

fun status :: "rejection \<Rightarrow> nat" where
  "status RateLimited = 429"
| "status _ = 400"

text \<open>The response: \<open>res.status(s).json({message})\<close> or \<open>res.json({ok: true})\<close>.\<close>

datatype response = Fail nat rejection | Ok

text \<open>
  Lines 92-113: the checks on the body's fields, in the order of the source. The result is
  \<open>cleanName\<close>, \<open>Math.floor(safeMoney)\<close> and \<open>safeRebirth\<close>.
\<close>

definition validate :: "(jsstring \<Rightarrow> jsnum) \<Rightarrow> jsval \<Rightarrow> jsval \<Rightarrow> jsval
    \<Rightarrow> rejection + (jsstring \<times> int \<times> int)" where
  "validate s2n nm mny rb =
     (case nm of
        Str s \<Rightarrow>
          if falsy nm \<or> trim s = [] then Inl InvalidName
          else
            let safeMoney = ToNumber s2n mny in
            if \<not> isFinite safeMoney \<or> js_lt safeMoney 0 then Inl InvalidScore
            else if js_gt safeMoney 5000000000 then Inl ImplausibleScore
            else
              let safeRebirth = or0 (ToNumber s2n rb) in
              if \<not> isInteger safeRebirth \<or> js_lt safeRebirth 0 then Inl InvalidTier
              else Inr (take 40 (trim s), Math_floor safeMoney, Math_floor safeRebirth)
      | _ \<Rightarrow> Inl InvalidName)"

text \<open>
  Lines 127-141: the two checks against the previous entry of the same name.
\<close>

definition history_check :: "entry \<Rightarrow> entry \<Rightarrow> rejection option" where
  "history_check previousEntry e =
     (let timeDiffSeconds = real_of_int (updatedAt e - updatedAt previousEntry) / 1000 in
      if timeDiffSeconds < 5 then Some RateLimited
      else
        let maxReasonableIncrease = 150000 * min timeDiffSeconds 3600;
            actualIncrease = money e - money previousEntry
        in if real_of_int actualIncrease > maxReasonableIncrease * 1.5
              \<and> actualIncrease > 100000000
           then Some ImplausibleIncrease
           else None)"

text \<open>
  Lines 122-149: look the name up, check against the previous entry, replace it when the
  submission improves on it, append when the name is new.
\<close>

definition merge_entry :: "entry list \<Rightarrow> entry \<Rightarrow> rejection + entry list" where
  "merge_entry leaderboard e =
     (case findIndex (\<lambda>item. name item = name e) leaderboard of
        Some existingIndex \<Rightarrow>
          (let previousEntry = leaderboard ! existingIndex in
           case history_check previousEntry e of
             Some r \<Rightarrow> Inl r
           | None \<Rightarrow>
               Inr (if money e > money previousEntry \<or> rebirth e > rebirth previousEntry
                    then leaderboard[existingIndex := e]
                    else leaderboard))
      | None \<Rightarrow> Inr (leaderboard @ [e]))"

text \<open>Lines 152-156: the comparator of the submission handler.\<close>

definition rank_cmp :: "entry \<Rightarrow> entry \<Rightarrow> int" where
  "rank_cmp a b =
     (if rebirth b \<noteq> rebirth a then rebirth b - rebirth a else money b - money a)"

text \<open>
  Lines 91-161, \<open>app.post('/api/leaderboard')\<close>. \<open>now\<close> is the value of \<open>Date.now()\<close>,
  \<open>board\<close> the list \<open>loadLeaderboard()\<close> returns. The second component of the result is
  the argument of \<open>saveLeaderboard\<close> when the handler calls it, \<open>None\<close> when it returns
  before.
\<close>

definition post_leaderboard :: "(jsstring \<Rightarrow> jsnum) \<Rightarrow> int \<Rightarrow> entry list
    \<Rightarrow> jsval \<Rightarrow> jsval \<Rightarrow> jsval \<Rightarrow> response \<times> entry list option" where
  "post_leaderboard s2n now board nm mny rb =
     (case validate s2n nm mny rb of
        Inl r \<Rightarrow> (Fail (status r) r, None)
      | Inr (cleanName, m, t) \<Rightarrow>
          (let e = \<lparr>name = cleanName, money = m, rebirth = t, updatedAt = now\<rparr> in
           case merge_entry board e of
             Inl r \<Rightarrow> (Fail (status r) r, None)
           | Inr leaderboard \<Rightarrow> (Ok, Some (take 100 (js_sort rank_cmp leaderboard)))))"

text \<open>Lines 84-89, \<open>app.get('/api/leaderboard')\<close>.\<close>

definition get_leaderboard :: "entry list \<Rightarrow> entry list" where
  "get_leaderboard board = take 10 (js_sort (\<lambda>a b. money b - money a) board)"


section \<open>The ranking order and the invariants of the collection\<close>

text \<open>
  The order of the specification: tier (\<open>rebirth\<close>) first, score (\<open>money\<close>) second,
  higher first. \<open>ranks_below a b\<close>: \<open>a\<close> belongs strictly after \<open>b\<close>.
\<close>

definition ranks_below :: "entry \<Rightarrow> entry \<Rightarrow> bool" where
  "ranks_below a b \<longleftrightarrow>
     rebirth a < rebirth b \<or> (rebirth a = rebirth b \<and> money a < money b)"

text \<open>No entry ranks below its successor.\<close>

fun ranked :: "entry list \<Rightarrow> bool" where
  "ranked (x # y # zs) = (\<not> ranks_below x y \<and> ranked (y # zs))"
| "ranked _ = True"

text \<open>The three invariants of the collection.\<close>

definition collection_inv :: "entry list \<Rightarrow> bool" where
  "collection_inv board \<longleftrightarrow>
     distinct (map name board) \<and> length board \<le> 100 \<and> ranked board"

text \<open>
  The persisted collection after one request (the time of its arrival and the three fields
  of its body): what the handler saved, or the collection as it was when the handler
  returned before saving. \<open>serve\<close> handles a sequence of requests one after another.
\<close>

fun handle :: "(jsstring \<Rightarrow> jsnum) \<Rightarrow> entry list \<Rightarrow> int \<times> jsval \<times> jsval \<times> jsval
    \<Rightarrow> entry list" where
  "handle s2n board (now, nm, mny, rb) =
     (case snd (post_leaderboard s2n now board nm mny rb) of
        None \<Rightarrow> board
      | Some saved \<Rightarrow> saved)"

definition serve :: "(jsstring \<Rightarrow> jsnum) \<Rightarrow> entry list
    \<Rightarrow> (int \<times> jsval \<times> jsval \<times> jsval) list \<Rightarrow> entry list" where
  "serve s2n board reqs = foldl (handle s2n) board reqs"

section \<open>The stored file\<close>

text \<open>
  What \<open>JSON.parse\<close> returns. An object is the list of its own properties in the
  engine's enumeration order, each key once.
\<close>

datatype json =
  JNull | JBool bool | JNum jsnum | JStr jsstring | JArr "json list"
  | JObj "(jsstring \<times> json) list"

text \<open>The exceptions that can arise inside \<open>loadLeaderboard\<close>.\<close>

datatype js_error = IOError | SyntaxError | TypeError

text \<open>The key of an array index or string position: its decimal digits.\<close>

fun index_key :: "nat \<Rightarrow> jsstring" where
  "index_key n =
     (if n < 10 then [48 + of_nat n] else index_key (n div 10) @ [48 + of_nat (n mod 10)])"

text \<open>
  The properties the spread \<open>{...item}\<close> copies: the fields of an object, the elements of
  an array and the characters of a string under their indices, nothing for \<open>null\<close>, a
  number or a boolean.
\<close>

fun own_props :: "json \<Rightarrow> (jsstring \<times> json) list" where
  "own_props (JObj fs) = fs"
| "own_props (JArr xs) = zip (map index_key [0..<length xs]) xs"
| "own_props (JStr s) = zip (map index_key [0..<length s]) (map (\<lambda>c. JStr [c]) s)"
| "own_props _ = []"

text \<open>
  \<open>item.rebirth\<close>: a \<open>TypeError\<close> on \<open>null\<close>, the field of an object, and
  \<open>undefined\<close> (here \<open>None\<close>) when the object has no such field or the item is not an
  object.
\<close>

fun get_rebirth :: "json \<Rightarrow> js_error + json option" where
  "get_rebirth JNull = Inl TypeError"
| "get_rebirth (JObj fs) = Inr (map_of fs (js ''rebirth''))"
| "get_rebirth _ = Inr None"

text \<open>
  A property of an object literal written after a spread: it replaces the value of a key
  that is there, in its place, and comes last otherwise.
\<close>

fun set_prop :: "jsstring \<Rightarrow> json \<Rightarrow> (jsstring \<times> json) list \<Rightarrow> (jsstring \<times> json) list" where
  "set_prop k v [] = [(k, v)]"
| "set_prop k v (p # ps) = (if fst p = k then (k, v) # ps else p # set_prop k v ps)"

text \<open>
  Lines 46-49, the callback of \<open>board.map\<close>:
  \<open>{...item, rebirth: item.rebirth !== undefined ? item.rebirth : 0}\<close>.
\<close>

definition migrate :: "json \<Rightarrow> js_error + json" where
  "migrate item =
     (case get_rebirth item of
        Inl err \<Rightarrow> Inl err
      | Inr r \<Rightarrow>
          Inr (JObj (set_prop (js ''rebirth'') (case r of Some v \<Rightarrow> v | None \<Rightarrow> JNum (Fin 0))
                 (own_props item))))"

text \<open>\<open>Array.prototype.map\<close> with a callback that may throw.\<close>

fun map_try :: "('a \<Rightarrow> js_error + 'b) \<Rightarrow> 'a list \<Rightarrow> js_error + 'b list" where
  "map_try f [] = Inr []"
| "map_try f (x # xs) =
     (case f x of
        Inl err \<Rightarrow> Inl err
      | Inr y \<Rightarrow> (case map_try f xs of Inl err \<Rightarrow> Inl err | Inr ys \<Rightarrow> Inr (y # ys)))"

text \<open>
  Lines 41-51, the body of the \<open>try\<close> block. \<open>file\<close> is the content of the file at
  \<open>DB_PATH\<close>, \<open>None\<close> when \<open>fs.readFileSync\<close> throws (no such file); \<open>JSON_parse\<close> is
  the runtime's parser, \<open>None\<close> when it throws a \<open>SyntaxError\<close>.
\<close>

definition load_try :: "(jsstring \<Rightarrow> json option) \<Rightarrow> jsstring option \<Rightarrow> js_error + json list" where
  "load_try JSON_parse file =
     (case file of
        None \<Rightarrow> Inl IOError
      | Some raw \<Rightarrow>
          (case JSON_parse raw of
             None \<Rightarrow> Inl SyntaxError
           | Some parsed \<Rightarrow>
               (let board = (case parsed of JArr items \<Rightarrow> items | _ \<Rightarrow> [])
                in map_try migrate board)))"

text \<open>Lines 39-55, \<open>loadLeaderboard\<close>: the \<open>catch\<close> turns every exception into \<open>[]\<close>.\<close>

definition loadLeaderboard :: "(jsstring \<Rightarrow> json option) \<Rightarrow> jsstring option \<Rightarrow> json list" where
  "loadLeaderboard JSON_parse file =
     (case load_try JSON_parse file of Inl err \<Rightarrow> [] | Inr board \<Rightarrow> board)"

text \<open>The tier field of a loaded item, \<open>None\<close> when it has none.\<close>

definition rebirth_of :: "json \<Rightarrow> json option" where
  "rebirth_of item = (case item of JObj fs \<Rightarrow> map_of fs (js ''rebirth'') | _ \<Rightarrow> None)"

text \<open>
  The object of lines 114-119 as it comes back from the file. The submission handler is
  modelled on collections of such objects, which \<open>loadLeaderboard\<close> returns as they are
  (lemma \<open>loadLeaderboard_encoded\<close> below).
\<close>

definition encode :: "entry \<Rightarrow> json" where
  "encode e =
     JObj [(js ''name'', JStr (name e)), (js ''money'', JNum (Fin (of_int (money e)))),
           (js ''rebirth'', JNum (Fin (of_int (rebirth e)))),
           (js ''updatedAt'', JNum (Fin (of_int (updatedAt e))))]"


section \<open>Persistence\<close>

text \<open>
  The calls a function makes on the file system, and their effect on the files (a path
  maps to the content of its file). \<open>fs.writeFileSync\<close> is the only call of the source;
  \<open>fs.renameSync\<close> is there for the strategy the specification describes. A rename of a
  missing file fails and changes nothing.
\<close>

type_synonym path = string

definition DB_PATH :: path where
  "DB_PATH = ''leaderboard.json''"

datatype fs_call = WriteFile path jsstring | RenameFile path path

type_synonym disk = "path \<Rightarrow> jsstring option"

fun exec_call :: "disk \<Rightarrow> fs_call \<Rightarrow> disk" where
  "exec_call d (WriteFile p c) = d(p \<mapsto> c)"
| "exec_call d (RenameFile a b) =
     (case d a of None \<Rightarrow> d | Some c \<Rightarrow> (d(a := None))(b \<mapsto> c))"

definition run_calls :: "fs_call list \<Rightarrow> disk \<Rightarrow> disk" where
  "run_calls cs d = foldl exec_call d cs"

text \<open>
  Lines 57-59, \<open>saveLeaderboard\<close>: the file-system calls it makes. \<open>JSON_stringify\<close> is
  the runtime's \<open>JSON.stringify(data, null, 2)\<close>.
\<close>

definition saveLeaderboard :: "('a \<Rightarrow> jsstring) \<Rightarrow> 'a \<Rightarrow> fs_call list" where
  "saveLeaderboard JSON_stringify data = [WriteFile DB_PATH (JSON_stringify data)]"


section \<open>Facts about the runtime functions\<close>


lemma findIndex_Some:
  "findIndex P xs = Some i \<Longrightarrow> i < length xs \<and> P (xs ! i) \<and> (\<forall>j<i. \<not> P (xs ! j))"
proof (induction xs arbitrary: i)
  case Nil
  then show ?case by simp
next
  case (Cons x xs)
  show ?case
  proof (cases "P x")
    case True
    with Cons.prems show ?thesis by simp
  next
    case False
    with Cons.prems obtain k where k: "findIndex P xs = Some k" "i = Suc k"
      by auto
    from Cons.IH [OF k(1)] False k(2) show ?thesis
      by (auto simp: less_Suc_eq_0_disj)
  qed
qed

lemma findIndex_None: "findIndex P xs = None \<longleftrightarrow> (\<forall>x\<in>set xs. \<not> P x)"
  by (induction xs) auto

lemma mset_insert_by: "mset (insert_by cmp x xs) = add_mset x (mset xs)"
  by (induction xs) auto

lemma mset_js_sort: "mset (js_sort cmp xs) = mset xs"
  by (induction xs) (auto simp: js_sort_def mset_insert_by)

lemma length_js_sort: "length (js_sort cmp xs) = length xs"
  using mset_js_sort [of cmp xs] by (metis size_mset)

lemma set_insert_by: "set (insert_by cmp x xs) = insert x (set xs)"
  using mset_insert_by [of cmp x xs] by (metis set_mset_mset set_mset_add_mset_insert)

lemma sorted_insert_by:
  assumes total: "\<And>a b. cmp a b \<le> 0 \<or> cmp b a \<le> 0"
    and trans: "\<And>a b c. cmp a b \<le> 0 \<Longrightarrow> cmp b c \<le> 0 \<Longrightarrow> cmp a c \<le> 0"
  shows "sorted_wrt (\<lambda>a b. cmp a b \<le> 0) xs
    \<Longrightarrow> sorted_wrt (\<lambda>a b. cmp a b \<le> 0) (insert_by cmp x xs)"
proof (induction xs)
  case Nil
  then show ?case by simp
next
  case (Cons y ys)
  show ?case
  proof (cases "cmp x y \<le> 0")
    case True
    with Cons.prems trans show ?thesis by auto
  next
    case False
    with total have "cmp y x \<le> 0" by blast
    with False Cons show ?thesis by (auto simp: set_insert_by)
  qed
qed

lemma sorted_js_sort:
  assumes "\<And>a b. cmp a b \<le> 0 \<or> cmp b a \<le> 0"
    and "\<And>a b c. cmp a b \<le> 0 \<Longrightarrow> cmp b c \<le> 0 \<Longrightarrow> cmp a c \<le> 0"
  shows "sorted_wrt (\<lambda>a b. cmp a b \<le> 0) (js_sort cmp xs)"
  by (induction xs) (simp_all add: js_sort_def sorted_insert_by [OF assms])

lemma js_sort_sorted_id:
  "sorted_wrt (\<lambda>a b. cmp a b \<le> 0) xs \<Longrightarrow> js_sort cmp xs = xs"
proof (induction xs)
  case Nil
  then show ?case by (simp add: js_sort_def)
next
  case (Cons x xs)
  then have "js_sort cmp xs = xs" by simp
  then have "js_sort cmp (x # xs) = insert_by cmp x xs" by (simp add: js_sort_def)
  also from Cons.prems have "\<dots> = x # xs" by (cases xs) auto
  finally show ?case .
qed

lemma rank_cmp_total: "rank_cmp a b \<le> 0 \<or> rank_cmp b a \<le> 0"
  by (auto simp: rank_cmp_def)

lemma rank_cmp_trans: "rank_cmp a b \<le> 0 \<Longrightarrow> rank_cmp b c \<le> 0 \<Longrightarrow> rank_cmp a c \<le> 0"
  by (auto simp: rank_cmp_def split: if_splits)

lemma rank_cmp_ranks_below: "rank_cmp a b \<le> 0 \<longleftrightarrow> \<not> ranks_below a b"
  by (auto simp: rank_cmp_def ranks_below_def)

lemma ranked_iff_sorted_wrt: "ranked xs \<longleftrightarrow> sorted_wrt (\<lambda>a b. rank_cmp a b \<le> 0) xs"
proof (induction xs rule: ranked.induct)
  case (1 x y zs)
  have "(\<forall>z\<in>set (y # zs). rank_cmp x z \<le> 0) \<longleftrightarrow> rank_cmp x y \<le> 0"
    if "sorted_wrt (\<lambda>a b. rank_cmp a b \<le> 0) (y # zs)"
    using that rank_cmp_trans [of x y] by auto
  with 1 show ?case by (auto simp: rank_cmp_ranks_below)
qed simp_all

lemma ranked_take: "ranked xs \<Longrightarrow> ranked (take n xs)"
  unfolding ranked_iff_sorted_wrt by (rule sorted_wrt_take)

lemma ranked_js_sort: "ranked (js_sort rank_cmp xs)"
  unfolding ranked_iff_sorted_wrt by (rule sorted_js_sort [OF rank_cmp_total rank_cmp_trans])

lemma distinct_names_js_sort:
  "distinct (map name (js_sort cmp xs)) \<longleftrightarrow> distinct (map name xs)"
proof -
  have "mset (map name (js_sort cmp xs)) = mset (map name xs)"
    using mset_js_sort [of cmp xs] by (metis mset_map)
  then show ?thesis by (rule mset_eq_imp_distinct_iff)
qed

lemma merge_entry_distinct:
  assumes "merge_entry board e = Inr lb" and "distinct (map name board)"
  shows "distinct (map name lb)"
proof (cases "findIndex (\<lambda>item. name item = name e) board")
  case None
  with assms(1) have "lb = board @ [e]" by (simp add: merge_entry_def)
  moreover from None have "name e \<notin> set (map name board)"
    by (auto simp: findIndex_None)
  ultimately show ?thesis using assms(2) by simp
next
  case (Some i)
  from findIndex_Some [OF Some] have i: "i < length board" "name (board ! i) = name e"
    by auto
  then have "map name (board[i := e]) = map name board"
    by (simp add: map_update list_update_same_conv)
  moreover from assms(1) Some have "lb = board[i := e] \<or> lb = board"
    by (auto simp: merge_entry_def Let_def split: option.splits if_splits)
  ultimately show ?thesis using assms(2) by auto
qed

section \<open>Facts about the submission handler\<close>

lemmas eval_defs = post_leaderboard_def validate_def merge_entry_def history_check_def
  js_sort_def rank_cmp_def trim_def is_ws_def js_def

lemma post_leaderboard_validated:
  "validate s2n nm mny rb = Inr (cleanName, m, t) \<Longrightarrow>
   post_leaderboard s2n now board nm mny rb =
     (case merge_entry board \<lparr>name = cleanName, money = m, rebirth = t, updatedAt = now\<rparr> of
        Inl r \<Rightarrow> (Fail (status r) r, None)
      | Inr leaderboard \<Rightarrow> (Ok, Some (take 100 (js_sort rank_cmp leaderboard))))"
  by (simp add: post_leaderboard_def)


lemma merge_entry_existing:
  assumes "findIndex (\<lambda>item. name item = name e) board = Some i"
    and "history_check (board ! i) e = None"
  shows "merge_entry board e =
    Inr (if money e > money (board ! i) \<or> rebirth e > rebirth (board ! i)
         then board[i := e] else board)"
  using assms by (simp add: merge_entry_def)

lemma merge_entry_rejects:
  assumes "findIndex (\<lambda>item. name item = name e) board = Some i"
    and "history_check (board ! i) e = Some r"
  shows "merge_entry board e = Inl r"
  using assms by (simp add: merge_entry_def)


lemma post_leaderboard_existing:
  assumes v: "validate s2n nm mny rb = Inr (cleanName, m, t)"
    and i: "findIndex (\<lambda>item. name item = cleanName) board = Some i"
    and ok: "fst (post_leaderboard s2n now board nm mny rb) = Ok"
  shows "post_leaderboard s2n now board nm mny rb =
    (Ok, Some (take 100 (js_sort rank_cmp
      (if m > money (board ! i) \<or> t > rebirth (board ! i)
       then board[i := \<lparr>name = cleanName, money = m, rebirth = t, updatedAt = now\<rparr>]
       else board))))"
proof -
  let ?e = "\<lparr>name = cleanName, money = m, rebirth = t, updatedAt = now\<rparr>"
  from i have i': "findIndex (\<lambda>item. name item = name ?e) board = Some i" by simp
  have "history_check (board ! i) ?e = None"
  proof (cases "history_check (board ! i) ?e")
    case (Some r)
    from merge_entry_rejects [OF i' Some] ok show ?thesis
      by (simp add: post_leaderboard_validated [OF v])
  qed simp
  from merge_entry_existing [OF i' this] show ?thesis
    by (simp add: post_leaderboard_validated [OF v])
qed

lemma take_100_js_sort: "length xs \<le> 100 \<Longrightarrow> take 100 (js_sort cmp xs) = js_sort cmp xs"
  by (simp add: length_js_sort)



lemma post_saved_invariants:
  assumes "post_leaderboard s2n now board nm mny rb = (resp, Some saved)"
  shows "length saved \<le> 100 \<and> ranked saved
    \<and> (distinct (map name board) \<longrightarrow> distinct (map name saved))"
proof -
  from assms obtain e lb where lb: "merge_entry board e = Inr lb"
    and saved: "saved = take 100 (js_sort rank_cmp lb)"
    by (auto simp: post_leaderboard_def Let_def split: sum.splits prod.splits)
  have "length saved \<le> 100" by (simp add: saved)
  moreover have "ranked saved" by (simp add: saved ranked_take ranked_js_sort)
  moreover have "distinct (map name saved)" if "distinct (map name board)"
    using merge_entry_distinct [OF lb that]
    by (simp add: saved distinct_names_js_sort flip: take_map)
  ultimately show ?thesis by blast
qed

lemma handle_collection_inv:
  assumes "collection_inv board"
  shows "collection_inv (handle s2n board req)"
proof (cases req)
  case (fields now nm mny rb)
  show ?thesis
  proof (cases "post_leaderboard s2n now board nm mny rb")
    case (Pair resp w)
    show ?thesis
    proof (cases w)
      case None
      with Pair fields assms show ?thesis by simp
    next
      case (Some saved)
      with Pair have "post_leaderboard s2n now board nm mny rb = (resp, Some saved)" by simp
      from post_saved_invariants [OF this] assms have "collection_inv saved"
        by (simp add: collection_inv_def)
      with Pair Some fields show ?thesis by simp
    qed
  qed
qed

lemma serve_collection_inv: "collection_inv board \<Longrightarrow> collection_inv (serve s2n board reqs)"
  unfolding serve_def by (induction reqs arbitrary: board) (simp_all add: handle_collection_inv)


section \<open>Facts about loading\<close>

lemma map_of_set_prop: "map_of (set_prop k v ps) k = Some v"
  by (induction ps) auto

lemma set_prop_absent: "map_of ps k = None \<Longrightarrow> set_prop k v ps = ps @ [(k, v)]"
  by (induction ps) (auto split: if_splits)

lemma set_prop_same: "map_of ps k = Some v \<Longrightarrow> set_prop k v ps = ps"
  by (induction ps) (auto split: if_splits)

lemma map_try_Inr:
  "map_try f xs = Inr ys
    \<Longrightarrow> length ys = length xs \<and> (\<forall>i<length xs. f (xs ! i) = Inr (ys ! i))"
proof (induction xs arbitrary: ys)
  case Nil
  then show ?case by simp
next
  case (Cons x xs)
  from Cons.prems obtain y ys' where y: "f x = Inr y" "map_try f xs = Inr ys'" "ys = y # ys'"
    by (auto split: sum.splits)
  from Cons.IH [OF y(2)] y show ?case
    by (auto simp: nth_Cons split: nat.splits)
qed

lemma map_try_all_Inr: "(\<forall>x\<in>set xs. f x = Inr (g x)) \<Longrightarrow> map_try f xs = Inr (map g xs)"
  by (induction xs) auto

lemma migrate_rebirth: "migrate item = Inr item' \<Longrightarrow> rebirth_of item' \<noteq> None"
  by (auto simp: migrate_def rebirth_of_def map_of_set_prop split: sum.splits)

lemma migrate_default:
  "migrate (JObj fs) =
    Inr (JObj (if map_of fs (js ''rebirth'') = None then fs @ [(js ''rebirth'', JNum (Fin 0))]
               else fs))"
  by (auto simp: migrate_def set_prop_absent set_prop_same)

lemma migrate_Inr:
  "item \<noteq> JNull \<Longrightarrow>
   migrate item =
     Inr (JObj (set_prop (js ''rebirth'')
       (case rebirth_of item of Some v \<Rightarrow> v | None \<Rightarrow> JNum (Fin 0)) (own_props item)))"
  by (cases item) (simp_all add: migrate_def rebirth_of_def)

lemma loadLeaderboard_cases:
  "loadLeaderboard JSON_parse file = [] \<or>
   (\<exists>raw items. file = Some raw \<and> JSON_parse raw = Some (JArr items)
      \<and> map_try migrate items = Inr (loadLeaderboard JSON_parse file))"
  by (auto simp: loadLeaderboard_def load_try_def Let_def
      split: option.splits sum.splits json.splits)

lemma loadLeaderboard_encoded:
  assumes "JSON_parse raw = Some (JArr (map encode board))"
  shows "loadLeaderboard JSON_parse (Some raw) = map encode board"
proof -
  have "migrate (encode e) = Inr (encode e)" for e
    by (simp add: migrate_def encode_def js_def)
  then have "map_try migrate (map encode board) = Inr (map id (map encode board))"
    by (intro map_try_all_Inr) auto
  with assms show ?thesis by (simp add: loadLeaderboard_def load_try_def)
qed


section \<open>The top-10 query\<close>

text \<open>
  C2. The claim: the query returns the first entries of the persisted collection in the
  ranking order, tier first and score second, with no other reordering. The handler of the
  query sorts by score alone. Two submissions to the empty collection, \<open>a\<close> with score 5
  and tier 1, then \<open>b\<close> with score 10 and tier 0, leave the collection \<open>[a, b]\<close>, which
  is in ranking order; on it the query returns \<open>[b, a]\<close>.
\<close>

theorem get_leaderboard_ignores_tier:
  "post_leaderboard (\<lambda>s. NaN) 0 [] (Str (js ''a'')) (Num (Fin 5)) (Num (Fin 1))
     = (Ok, Some [\<lparr>name = js ''a'', money = 5, rebirth = 1, updatedAt = 0\<rparr>])
   \<and> post_leaderboard (\<lambda>s. NaN) 0 [\<lparr>name = js ''a'', money = 5, rebirth = 1, updatedAt = 0\<rparr>]
       (Str (js ''b'')) (Num (Fin 10)) (Num (Fin 0))
     = (Ok, Some [\<lparr>name = js ''a'', money = 5, rebirth = 1, updatedAt = 0\<rparr>,
                  \<lparr>name = js ''b'', money = 10, rebirth = 0, updatedAt = 0\<rparr>])
   \<and> ranked [\<lparr>name = js ''a'', money = 5, rebirth = 1, updatedAt = 0\<rparr>,
              \<lparr>name = js ''b'', money = 10, rebirth = 0, updatedAt = 0\<rparr>]
   \<and> get_leaderboard [\<lparr>name = js ''a'', money = 5, rebirth = 1, updatedAt = 0\<rparr>,
                       \<lparr>name = js ''b'', money = 10, rebirth = 0, updatedAt = 0\<rparr>]
     = [\<lparr>name = js ''b'', money = 10, rebirth = 0, updatedAt = 0\<rparr>,
        \<lparr>name = js ''a'', money = 5, rebirth = 1, updatedAt = 0\<rparr>]"
  by (simp add: eval_defs get_leaderboard_def ranks_below_def)


section \<open>Saving\<close>

text \<open>
  C3, as the specification states it: \<open>save\<close> writes to a temporary location and then
  renames it over the canonical one. The calls \<open>saveLeaderboard\<close> makes for the empty
  collection are one write to the canonical location; they are not a write to a temporary
  file followed by a rename.
\<close>

theorem save_is_one_direct_write:
  "saveLeaderboard (\<lambda>d. js ''[]'') ([] :: entry list) = [WriteFile DB_PATH (js ''[]'')]
   \<and> saveLeaderboard (\<lambda>d. js ''[]'') ([] :: entry list)
       \<noteq> [WriteFile ''leaderboard.json.tmp'' (js ''[]''),
           RenameFile ''leaderboard.json.tmp'' DB_PATH]"
  by (simp add: saveLeaderboard_def)

text \<open>
  C3, amended. \<open>save\<close> makes a single file-system call, which overwrites the canonical
  location in place: when it has run, the canonical location holds the serialized
  collection and every other path holds what it held before (no temporary file is created
  or renamed).
\<close>

theorem save_overwrites_in_place:
  "run_calls (saveLeaderboard JSON_stringify data) d DB_PATH = Some (JSON_stringify data)
   \<and> (p \<noteq> DB_PATH \<longrightarrow> run_calls (saveLeaderboard JSON_stringify data) d p = d p)
   \<and> length (saveLeaderboard JSON_stringify data) = 1"
  by (simp add: run_calls_def saveLeaderboard_def)

theorem save_overwrites_in_place_witness:
  "''leaderboard.json.tmp'' \<noteq> DB_PATH
   \<and> run_calls (saveLeaderboard (\<lambda>d. js ''[]'') ([] :: entry list)) Map.empty DB_PATH
       = Some (js ''[]'')
   \<and> run_calls (saveLeaderboard (\<lambda>d. js ''[]'') ([] :: entry list)) Map.empty
       ''leaderboard.json.tmp'' = None"
proof -
  have h: "''leaderboard.json.tmp'' \<noteq> DB_PATH" by (simp add: DB_PATH_def)
  from save_overwrites_in_place [of "\<lambda>d. js ''[]''" "[] :: entry list" Map.empty
      "''leaderboard.json.tmp''"] h
  show ?thesis by simp
qed


section \<open>The invariants of the persisted collection\<close>

text \<open>
  C4. Whenever the submission handler saves a collection (an accepted submission), the saved
  collection has at most 100 entries and no entry of it ranks below its successor; and when
  the names of the collection it loaded were pairwise distinct, so are the names of the
  collection it saves. Hence, starting from the empty collection of a missing file, the
  persisted collection satisfies the three invariants after any sequence of requests.
\<close>

theorem post_leaderboard_invariants:
  "(post_leaderboard s2n now board nm mny rb = (resp, Some saved)
      \<longrightarrow> length saved \<le> 100 \<and> ranked saved
        \<and> (distinct (map name board) \<longrightarrow> distinct (map name saved)))
   \<and> collection_inv (serve s2n [] reqs)"
proof -
  have "collection_inv []" by (simp add: collection_inv_def)
  then have "collection_inv (serve s2n [] reqs)" by (rule serve_collection_inv)
  with post_saved_invariants [of s2n now board nm mny rb resp saved] show ?thesis
    by blast
qed

theorem post_leaderboard_invariants_witness:
  "post_leaderboard (\<lambda>s. NaN) 1 [\<lparr>name = js ''a'', money = 5, rebirth = 0, updatedAt = 0\<rparr>]
      (Str (js '' b '')) (Num (Fin 7)) Undefined
    = (Ok, Some [\<lparr>name = js ''b'', money = 7, rebirth = 0, updatedAt = 1\<rparr>,
                 \<lparr>name = js ''a'', money = 5, rebirth = 0, updatedAt = 0\<rparr>])
   \<and> distinct (map name [\<lparr>name = js ''a'', money = 5, rebirth = 0, updatedAt = 0\<rparr>])
   \<and> length [\<lparr>name = js ''b'', money = 7, rebirth = 0, updatedAt = 1\<rparr>,
              \<lparr>name = js ''a'', money = 5, rebirth = 0, updatedAt = 0\<rparr>] \<le> 100
   \<and> ranked [\<lparr>name = js ''b'', money = 7, rebirth = 0, updatedAt = 1\<rparr>,
              \<lparr>name = js ''a'', money = 5, rebirth = 0, updatedAt = 0\<rparr>]
   \<and> distinct (map name [\<lparr>name = js ''b'', money = 7, rebirth = 0, updatedAt = 1\<rparr>,
                          \<lparr>name = js ''a'', money = 5, rebirth = 0, updatedAt = 0\<rparr>])"
proof -
  have h: "post_leaderboard (\<lambda>s. NaN) 1
      [\<lparr>name = js ''a'', money = 5, rebirth = 0, updatedAt = 0\<rparr>]
      (Str (js '' b '')) (Num (Fin 7)) Undefined
    = (Ok, Some [\<lparr>name = js ''b'', money = 7, rebirth = 0, updatedAt = 1\<rparr>,
                 \<lparr>name = js ''a'', money = 5, rebirth = 0, updatedAt = 0\<rparr>])"
    by (simp add: post_leaderboard_def validate_def merge_entry_def js_sort_def rank_cmp_def
        trim_def is_ws_def js_def)
  from post_leaderboard_invariants [of "\<lambda>s. NaN" 1
      "[\<lparr>name = js ''a'', money = 5, rebirth = 0, updatedAt = 0\<rparr>]"
      "Str (js '' b '')" "Num (Fin 7)" Undefined Ok
      "[\<lparr>name = js ''b'', money = 7, rebirth = 0, updatedAt = 1\<rparr>,
        \<lparr>name = js ''a'', money = 5, rebirth = 0, updatedAt = 0\<rparr>]"] h
  show ?thesis
    by (simp add: js_def)
qed


section \<open>Replacing the previous entry\<close>

text \<open>
  C5, as the specification states it: a mutation is reported with \<open>ranked = true\<close> and a
  no-op with \<open>ranked = false\<close>. Against the same stored entry (score 5), a submission of
  score 3 leaves the entry as it is and a submission of score 9 replaces it; the handler
  answers both with the same response \<open>{ok: true}\<close>.
\<close>

theorem same_response_for_discard_and_replace:
  "post_leaderboard (\<lambda>s. NaN) 10000 [\<lparr>name = js ''a'', money = 5, rebirth = 0, updatedAt = 0\<rparr>]
      (Str (js ''a'')) (Num (Fin 3)) (Num (Fin 0))
     = (Ok, Some [\<lparr>name = js ''a'', money = 5, rebirth = 0, updatedAt = 0\<rparr>])
   \<and> post_leaderboard (\<lambda>s. NaN) 10000 [\<lparr>name = js ''a'', money = 5, rebirth = 0, updatedAt = 0\<rparr>]
      (Str (js ''a'')) (Num (Fin 9)) (Num (Fin 0))
     = (Ok, Some [\<lparr>name = js ''a'', money = 9, rebirth = 0, updatedAt = 10000\<rparr>])"
  by (simp add: eval_defs)

text \<open>
  C5, amended. For a submission that passes every check and whose name has a previous
  entry in a collection of at most 100 entries: the response is \<open>{ok: true}\<close> in every
  case; when the submitted score is higher than the previous score or the submitted tier
  higher than the previous tier, the saved collection is the loaded one with the previous
  entry replaced by the new entry (stamped with the current time); otherwise the saved
  collection has exactly the entries of the loaded one, the previous entry with its
  \<open>updatedAt\<close> among them.
\<close>

theorem replaced_iff_improved:
  assumes v: "validate s2n nm mny rb = Inr (cleanName, m, t)"
    and i: "findIndex (\<lambda>item. name item = cleanName) board = Some i"
    and ok: "fst (post_leaderboard s2n now board nm mny rb) = Ok"
    and len: "length board \<le> 100"
  shows "\<exists>saved. post_leaderboard s2n now board nm mny rb = (Ok, Some saved)
    \<and> mset saved =
        (if m > money (board ! i) \<or> t > rebirth (board ! i)
         then add_mset \<lparr>name = cleanName, money = m, rebirth = t, updatedAt = now\<rparr>
                (mset board - {#board ! i#})
         else mset board)"
proof -
  let ?e = "\<lparr>name = cleanName, money = m, rebirth = t, updatedAt = now\<rparr>"
  from findIndex_Some [OF i] have "i < length board" by simp
  then have "mset (board[i := ?e]) = add_mset ?e (mset board - {#board ! i#})"
    by (rule mset_update)
  with post_leaderboard_existing [OF v i ok] len show ?thesis
    by (simp add: take_100_js_sort mset_js_sort)
qed

theorem replaced_iff_improved_witness:
  "validate (\<lambda>s. NaN) (Str (js ''alice'')) (Num (Fin 1000000)) (Num (Fin 0)) = Inr (js ''alice'', 1000000, 0)
   \<and> findIndex (\<lambda>item. name item = js ''alice'')
        [\<lparr>name = js ''alice'', money = 1000, rebirth = 0, updatedAt = 0\<rparr>] = Some 0
   \<and> fst (post_leaderboard (\<lambda>s. NaN) 10000
        [\<lparr>name = js ''alice'', money = 1000, rebirth = 0, updatedAt = 0\<rparr>]
        (Str (js ''alice'')) (Num (Fin 1000000)) (Num (Fin 0))) = Ok
   \<and> (\<exists>saved. post_leaderboard (\<lambda>s. NaN) 10000
        [\<lparr>name = js ''alice'', money = 1000, rebirth = 0, updatedAt = 0\<rparr>]
        (Str (js ''alice'')) (Num (Fin 1000000)) (Num (Fin 0)) = (Ok, Some saved)
      \<and> mset saved = {#\<lparr>name = js ''alice'', money = 1000000, rebirth = 0, updatedAt = 10000\<rparr>#})"
proof -
  let ?board = "[\<lparr>name = js ''alice'', money = 1000, rebirth = 0, updatedAt = 0\<rparr>]"
  have v: "validate (\<lambda>s. NaN) (Str (js ''alice'')) (Num (Fin 1000000)) (Num (Fin 0))
      = Inr (js ''alice'', 1000000, 0)"
    by (simp add: validate_def trim_def is_ws_def js_def)
  have i: "findIndex (\<lambda>item. name item = js ''alice'') ?board = Some 0" by simp
  have ok: "fst (post_leaderboard (\<lambda>s. NaN) 10000 ?board
      (Str (js ''alice'')) (Num (Fin 1000000)) (Num (Fin 0))) = Ok"
    by (simp add: eval_defs)
  have len: "length ?board \<le> 100" by simp
  from replaced_iff_improved [OF v i ok len] v i ok show ?thesis by simp
qed


section \<open>The checks against the previous entry\<close>




section \<open>The check of the tier\<close>

text \<open>
  C7, as the specification states it: a non-numeric tier is rejected as InvalidTier. The
  tier \<open>"abc"\<close> is not: \<open>Number("abc")\<close> is \<open>NaN\<close>, which \<open>|| 0\<close> turns into 0, and
  the submission is accepted with tier 0. (The only string the handler converts here is
  \<open>"abc"\<close>.)
\<close>

theorem non_numeric_tier_accepted:
  "post_leaderboard (\<lambda>s. NaN) 0 [] (Str (js ''bob'')) (Num (Fin 1)) (Str (js ''abc''))
     = (Ok, Some [\<lparr>name = js ''bob'', money = 1, rebirth = 0, updatedAt = 0\<rparr>])"
  by (simp add: eval_defs)

text \<open>
  C7, amended. A submission that is not rejected for its name or its score is rejected as
  InvalidTier, before the collection is loaded and with nothing saved, exactly when its tier
  converts to a number (not \<open>NaN\<close>) that is not an integer or is negative. A tier that
  converts to \<open>NaN\<close>, as an absent or a non-numeric tier does, passes as tier 0.
\<close>

theorem tier_check:
  assumes "fst (post_leaderboard s2n now board nm mny rb)
      \<notin> {Fail 400 InvalidName, Fail 400 InvalidScore, Fail 400 ImplausibleScore}"
  shows "(post_leaderboard s2n now board nm mny rb = (Fail 400 InvalidTier, None)
          \<longleftrightarrow> ToNumber s2n rb \<noteq> NaN
              \<and> (\<not> isInteger (ToNumber s2n rb) \<or> js_lt (ToNumber s2n rb) 0))
    \<and> (ToNumber s2n rb = NaN
        \<longrightarrow> (\<exists>cleanName m. validate s2n nm mny rb = Inr (cleanName, m, 0)))
    \<and> (rb = Undefined
        \<longrightarrow> (\<exists>cleanName m. validate s2n nm mny rb = Inr (cleanName, m, 0)))"
proof -
  from assms obtain s where nm: "nm = Str s" "s \<noteq> []" "trim s \<noteq> []"
    by (auto simp: post_leaderboard_def validate_def split: jsval.splits if_splits)
  from assms nm obtain r where r: "ToNumber s2n mny = Fin r" "\<not> r < 0" "\<not> r > 5000000000"
    by (cases "ToNumber s2n mny")
      (auto simp: post_leaderboard_def validate_def Let_def split: if_splits)
  have v: "validate s2n nm mny rb =
    (if \<not> isInteger (or0 (ToNumber s2n rb)) \<or> js_lt (or0 (ToNumber s2n rb)) 0
     then Inl InvalidTier
     else Inr (take 40 (trim s), \<lfloor>r\<rfloor>, Math_floor (or0 (ToNumber s2n rb))))"
    using nm r by (simp add: validate_def Let_def)
  have "merge_entry board e \<noteq> Inl InvalidTier" for e
    by (auto simp: merge_entry_def history_check_def Let_def split: option.splits if_splits)
  then have p: "post_leaderboard s2n now board nm mny rb = (Fail 400 InvalidTier, None)
      \<longleftrightarrow> validate s2n nm mny rb = Inl InvalidTier"
    by (auto simp: post_leaderboard_def Let_def split: sum.splits)
  show ?thesis
    unfolding p v by (cases "ToNumber s2n rb") auto
qed

theorem tier_check_witness:
  "fst (post_leaderboard (\<lambda>s. NaN) 0 [] (Str (js ''bob'')) (Num (Fin 1)) (Num (Fin (3 / 2))))
      \<notin> {Fail 400 InvalidName, Fail 400 InvalidScore, Fail 400 ImplausibleScore}
   \<and> post_leaderboard (\<lambda>s. NaN) 0 [] (Str (js ''bob'')) (Num (Fin 1)) (Num (Fin (3 / 2)))
      = (Fail 400 InvalidTier, None)"
proof -
  have h: "fst (post_leaderboard (\<lambda>s. NaN) 0 [] (Str (js ''bob'')) (Num (Fin 1)) (Num (Fin (3 / 2))))
      \<notin> {Fail 400 InvalidName, Fail 400 InvalidScore, Fail 400 ImplausibleScore}"
    by (simp add: eval_defs)
  from tier_check [OF h] h show ?thesis by simp
qed


section \<open>Discarded submissions\<close>

text \<open>
  C8, as the specification states it: a discarded submission performs no persistence
  write. The submission below repeats the stored score and tier of \<open>b\<close> a minute later
  and is discarded; the handler calls \<open>saveLeaderboard\<close> all the same.
\<close>

theorem discard_calls_save:
  "snd (post_leaderboard (\<lambda>s. NaN) 60000
      [\<lparr>name = js ''a'', money = 9, rebirth = 2, updatedAt = 0\<rparr>,
       \<lparr>name = js ''b'', money = 7, rebirth = 1, updatedAt = 0\<rparr>]
      (Str (js ''b'')) (Num (Fin 7)) (Num (Fin 1))) \<noteq> None"
  by (simp add: eval_defs)

text \<open>
  C8, amended. A discarded submission (one that passes every check, has a previous entry
  and improves neither its score nor its tier) is sorted, truncated and saved like any
  accepted submission; when the loaded collection is in ranking order and has at most 100
  entries, the collection saved is equal to the collection loaded.
\<close>

theorem discard_saves_same_collection:
  assumes v: "validate s2n nm mny rb = Inr (cleanName, m, t)"
    and i: "findIndex (\<lambda>item. name item = cleanName) board = Some i"
    and ok: "fst (post_leaderboard s2n now board nm mny rb) = Ok"
    and no: "\<not> (m > money (board ! i) \<or> t > rebirth (board ! i))"
    and sorted: "ranked board"
    and len: "length board \<le> 100"
  shows "post_leaderboard s2n now board nm mny rb = (Ok, Some board)"
proof -
  from post_leaderboard_existing [OF v i ok] no
  have "post_leaderboard s2n now board nm mny rb
      = (Ok, Some (take 100 (js_sort rank_cmp board)))"
    by simp
  moreover from sorted have "js_sort rank_cmp board = board"
    by (simp add: ranked_iff_sorted_wrt js_sort_sorted_id)
  ultimately show ?thesis using len by simp
qed

theorem discard_saves_same_collection_witness:
  "validate (\<lambda>s. NaN) (Str (js ''b'')) (Num (Fin 7)) (Num (Fin 1)) = Inr (js ''b'', 7, 1)
   \<and> findIndex (\<lambda>item. name item = js ''b'')
        [\<lparr>name = js ''a'', money = 9, rebirth = 2, updatedAt = 0\<rparr>,
         \<lparr>name = js ''b'', money = 7, rebirth = 1, updatedAt = 0\<rparr>] = Some 1
   \<and> ranked [\<lparr>name = js ''a'', money = 9, rebirth = 2, updatedAt = 0\<rparr>,
              \<lparr>name = js ''b'', money = 7, rebirth = 1, updatedAt = 0\<rparr>]
   \<and> post_leaderboard (\<lambda>s. NaN) 60000
        [\<lparr>name = js ''a'', money = 9, rebirth = 2, updatedAt = 0\<rparr>,
         \<lparr>name = js ''b'', money = 7, rebirth = 1, updatedAt = 0\<rparr>]
        (Str (js ''b'')) (Num (Fin 7)) (Num (Fin 1))
      = (Ok, Some [\<lparr>name = js ''a'', money = 9, rebirth = 2, updatedAt = 0\<rparr>,
                   \<lparr>name = js ''b'', money = 7, rebirth = 1, updatedAt = 0\<rparr>])"
proof -
  let ?board = "[\<lparr>name = js ''a'', money = 9, rebirth = 2, updatedAt = 0\<rparr>,
                 \<lparr>name = js ''b'', money = 7, rebirth = 1, updatedAt = 0\<rparr>]"
  have v: "validate (\<lambda>s. NaN) (Str (js ''b'')) (Num (Fin 7)) (Num (Fin 1)) = Inr (js ''b'', 7, 1)"
    by (simp add: validate_def trim_def is_ws_def js_def)
  have i: "findIndex (\<lambda>item. name item = js ''b'') ?board = Some 1"
    by (simp add: js_def)
  have ok: "fst (post_leaderboard (\<lambda>s. NaN) 60000 ?board (Str (js ''b'')) (Num (Fin 7)) (Num (Fin 1))) = Ok"
    by (simp add: eval_defs)
  have no: "\<not> (7 > money (?board ! 1) \<or> 1 > rebirth (?board ! 1))" by simp
  have r: "ranked ?board" by (simp add: ranks_below_def)
  have len: "length ?board \<le> 100" by simp
  from discard_saves_same_collection [OF v i ok no r len] v i r show ?thesis by simp
qed


section \<open>Loading\<close>

text \<open>
  C9. \<open>load\<close> returns the empty collection when the file is missing, when it does not
  parse and when it parses to something that is not a list; whatever exception arises
  inside it, it returns the empty collection. Every item of the collection it returns has a
  tier field, and an object of the file that had none is returned with tier 0 added (as
  long as no item of the file is \<open>null\<close>, the one case in which mapping the items
  throws).
\<close>

theorem loadLeaderboard_fails_soft:
  "loadLeaderboard JSON_parse None = []
   \<and> (JSON_parse raw = None \<longrightarrow> loadLeaderboard JSON_parse (Some raw) = [])
   \<and> (JSON_parse raw = Some parsed \<and> (\<forall>items. parsed \<noteq> JArr items)
        \<longrightarrow> loadLeaderboard JSON_parse (Some raw) = [])
   \<and> (\<forall>err. load_try JSON_parse file = Inl err \<longrightarrow> loadLeaderboard JSON_parse file = [])
   \<and> (\<forall>item \<in> set (loadLeaderboard JSON_parse file). rebirth_of item \<noteq> None)
   \<and> (JSON_parse raw = Some (JArr items) \<and> JNull \<notin> set items
        \<longrightarrow> length (loadLeaderboard JSON_parse (Some raw)) = length items
          \<and> (\<forall>i fs. i < length items \<and> items ! i = JObj fs \<and> map_of fs (js ''rebirth'') = None
                \<longrightarrow> loadLeaderboard JSON_parse (Some raw) ! i
                    = JObj (fs @ [(js ''rebirth'', JNum (Fin 0))])))"
proof -
  have 1: "loadLeaderboard JSON_parse None = []"
    by (simp add: loadLeaderboard_def load_try_def)
  have 2: "loadLeaderboard JSON_parse (Some raw) = []" if "JSON_parse raw = None"
    using that by (simp add: loadLeaderboard_def load_try_def)
  have 3: "loadLeaderboard JSON_parse (Some raw) = []"
    if "JSON_parse raw = Some parsed" "\<forall>items. parsed \<noteq> JArr items"
    using that by (cases parsed) (simp_all add: loadLeaderboard_def load_try_def)
  have 4: "loadLeaderboard JSON_parse file = []" if "load_try JSON_parse file = Inl err" for err
    using that by (simp add: loadLeaderboard_def)
  have 5: "rebirth_of item \<noteq> None" if "item \<in> set (loadLeaderboard JSON_parse file)" for item
  proof -
    from that loadLeaderboard_cases [of JSON_parse "file"]
    obtain items where "map_try migrate items = Inr (loadLeaderboard JSON_parse file)"
      by auto
    from map_try_Inr [OF this] that obtain i where "migrate (items ! i) = Inr item"
      by (auto simp: in_set_conv_nth)
    then show ?thesis by (rule migrate_rebirth)
  qed
  have 6: "length (loadLeaderboard JSON_parse (Some raw)) = length items
      \<and> (\<forall>i fs. i < length items \<and> items ! i = JObj fs \<and> map_of fs (js ''rebirth'') = None
            \<longrightarrow> loadLeaderboard JSON_parse (Some raw) ! i = JObj (fs @ [(js ''rebirth'', JNum (Fin 0))]))"
    if p: "JSON_parse raw = Some (JArr items)" and ne: "JNull \<notin> set items"
  proof -
    from ne have "map_try migrate items =
        Inr (map (\<lambda>item. JObj (set_prop (js ''rebirth'')
          (case rebirth_of item of Some v \<Rightarrow> v | None \<Rightarrow> JNum (Fin 0)) (own_props item))) items)"
      by (intro map_try_all_Inr ballI migrate_Inr) auto
    with p have "map_try migrate items = Inr (loadLeaderboard JSON_parse (Some raw))"
      by (auto simp: loadLeaderboard_def load_try_def)
    from map_try_Inr [OF this] show ?thesis
      by (auto simp: migrate_default)
  qed
  from 1 2 3 4 5 6 show ?thesis by blast
qed

theorem loadLeaderboard_fails_soft_witness:
  "loadLeaderboard (\<lambda>s. if s = js ''[{}]'' then Some (JArr [JObj []]) else None)
      (Some (js ''oops'')) = []
   \<and> JNull \<notin> set [JObj []]
   \<and> length (loadLeaderboard (\<lambda>s. if s = js ''[{}]'' then Some (JArr [JObj []]) else None)
        (Some (js ''[{}]''))) = 1
   \<and> loadLeaderboard (\<lambda>s. if s = js ''[{}]'' then Some (JArr [JObj []]) else None)
        (Some (js ''[{}]'')) ! 0 = JObj [(js ''rebirth'', JNum (Fin 0))]"
proof -
  let ?p = "\<lambda>s. if s = js ''[{}]'' then Some (JArr [JObj []]) else None"
  have a: "?p (js ''oops'') = None" by (simp add: js_def)
  have b: "?p (js ''[{}]'') = Some (JArr [JObj []])" by simp
  from loadLeaderboard_fails_soft [of ?p "js ''oops''"] a
  have 1: "loadLeaderboard ?p (Some (js ''oops'')) = []" by blast
  from loadLeaderboard_fails_soft [of ?p "js ''[{}]''" _ _ "[JObj []]"] b
  have 2: "length (loadLeaderboard ?p (Some (js ''[{}]''))) = 1
      \<and> loadLeaderboard ?p (Some (js ''[{}]'')) ! 0 = JObj [(js ''rebirth'', JNum (Fin 0))]"
    by simp
  from 1 2 show ?thesis by simp
qed


section \<open>The identity of a submitter\<close>



end
